theory Spec2Isabelle
  imports Main "HOL-Library.Char_ord" "HOL-Library.List_Lexorder" "HOL-Library.Sublist"
begin

section \<open>The event page of atrium-jazz\<close>

text \<open>
  The development embeds \<^verbatim>\<open>src/app/event/[slug]/page.tsx\<close>: the offset helper
  \<^verbatim>\<open>getETOffset\<close>, the start and end instants of the structured data, the
  query and the filter behind the "More Dates" list, and the two entry points
  \<^verbatim>\<open>generateMetadata\<close> and \<^verbatim>\<open>Page\<close>.

  The page runs on a JavaScript engine, so the part of the language's \<^verbatim>\<open>Date\<close>
  object that the page calls is modelled first, after the ECMAScript specification
  (section "Date Objects"). A time value is an integer number of milliseconds since
  the epoch; a \<^verbatim>\<open>Date\<close> whose time value is NaN (an "Invalid Date") is \<open>None\<close>.
\<close>

subsection \<open>ECMAScript time values\<close>

type_synonym jsDate = "int option"

definition msPerDay :: int where "msPerDay = 86400000"
definition msPerHour :: int where "msPerHour = 3600000"
definition msPerMinute :: int where "msPerMinute = 60000"
definition msPerSecond :: int where "msPerSecond = 1000"

definition Day :: "int \<Rightarrow> int" where
  "Day t = t div msPerDay"

definition DayFromYear :: "int \<Rightarrow> int" where
  "DayFromYear y =
     365 * (y - 1970) + (y - 1969) div 4 - (y - 1901) div 100 + (y - 1601) div 400"

definition InLeapYear :: "int \<Rightarrow> bool" where
  "InLeapYear y = (y mod 4 = 0 \<and> (y mod 100 \<noteq> 0 \<or> y mod 400 = 0))"

text \<open>
  \<^verbatim>\<open>YearFromTime\<close> is specified as the largest year whose first day is not after
  the time value. The executable form below finds it from the day number by the
  usual era arithmetic of the proleptic Gregorian calendar (eras of 400 years that
  begin on 1 March).
\<close>

definition YearFromDay :: "int \<Rightarrow> int" where
  "YearFromDay z =
     (let z' = z + 719468;
          era = z' div 146097;
          doe = z' - era * 146097;
          yoe = (doe - doe div 1460 + doe div 36524 - doe div 146096) div 365;
          doy = doe - (365 * yoe + yoe div 4 - yoe div 100)
      in yoe + era * 400 + (if doy < 306 then 0 else 1))"

definition YearFromTime :: "int \<Rightarrow> int" where
  "YearFromTime t = YearFromDay (Day t)"

definition DayWithinYear :: "int \<Rightarrow> int" where
  "DayWithinYear t = Day t - DayFromYear (YearFromTime t)"

text \<open>The first day of each month within a year, months counted from 0.\<close>

definition monthStart :: "bool \<Rightarrow> int \<Rightarrow> int" where
  "monthStart leap m =
     (if m \<le> 0 then 0
      else if m = 1 then 31
      else ([59, 90, 120, 151, 181, 212, 243, 273, 304, 334] ! nat (m - 2))
           + (if leap then 1 else 0))"

definition MonthFromTime :: "int \<Rightarrow> int" where
  "MonthFromTime t =
     (let leap = InLeapYear (YearFromTime t); d = DayWithinYear t
      in int (length (filter (\<lambda>m. monthStart leap m \<le> d) [1, 2, 3, 4, 5, 6, 7, 8, 9, 10, 11])))"

definition DateFromTime :: "int \<Rightarrow> int" where
  "DateFromTime t =
     DayWithinYear t - monthStart (InLeapYear (YearFromTime t)) (MonthFromTime t) + 1"

definition HourFromTime :: "int \<Rightarrow> int" where
  "HourFromTime t = (t div msPerHour) mod 24"

definition MinFromTime :: "int \<Rightarrow> int" where
  "MinFromTime t = (t div msPerMinute) mod 60"

definition SecFromTime :: "int \<Rightarrow> int" where
  "SecFromTime t = (t div msPerSecond) mod 60"

definition msFromTime :: "int \<Rightarrow> int" where
  "msFromTime t = t mod msPerSecond"

definition MakeTime :: "int \<Rightarrow> int \<Rightarrow> int \<Rightarrow> int \<Rightarrow> int" where
  "MakeTime h m s milli = h * msPerHour + m * msPerMinute + s * msPerSecond + milli"

text \<open>\<^verbatim>\<open>MakeDay\<close> takes a month counted from 0 and lets month and date overflow.\<close>

definition MakeDay :: "int \<Rightarrow> int \<Rightarrow> int \<Rightarrow> int" where
  "MakeDay year month date =
     (let ym = year + month div 12; mn = month mod 12
      in DayFromYear ym + monthStart (InLeapYear ym) mn + date - 1)"

definition MakeDate :: "int \<Rightarrow> int \<Rightarrow> int" where
  "MakeDate day time = day * msPerDay + time"

definition TimeClip :: "int \<Rightarrow> jsDate" where
  "TimeClip t = (if \<bar>t\<bar> > 8640000000000000 then None else Some t)"

subsection \<open>The host environment\<close>

text \<open>
  What the language leaves to the implementation is a parameter of the model:
  \<^item> \<open>tzaUTC t\<close> is the offset of local time from UTC, in minutes, in force at the UTC
    time value \<open>t\<close> (the specification's \<^verbatim>\<open>LocalTZA(t, true)\<close>);
  \<^item> \<open>tzaLocal t\<close> is the offset chosen for a local time value \<open>t\<close>
    (\<^verbatim>\<open>LocalTZA(t, false)\<close>);
  \<^item> \<open>parseOther s\<close> is what \<^verbatim>\<open>Date.parse\<close> makes of a string that is not one of
    the two forms of the Date Time String Format this page builds, see \<open>dateParse\<close>
    below. For a string outside the format the specification leaves the result to
    the implementation;
  \<^item> \<open>formatInTimeZone\<close> is the function of that name of the library
    \<^verbatim>\<open>date-fns-tz\<close>, which is not part of this repository.
\<close>

datatype signal = NotFound | RangeError

record host =
  tzaUTC :: "int \<Rightarrow> int"
  tzaLocal :: "int \<Rightarrow> int"
  parseOther :: "string \<Rightarrow> jsDate"
  formatInTimeZone :: "jsDate \<Rightarrow> string \<Rightarrow> string \<Rightarrow> signal + string"

definition LocalTime :: "host \<Rightarrow> int \<Rightarrow> int" where
  "LocalTime h t = t + tzaUTC h t * msPerMinute"

definition UTC :: "host \<Rightarrow> int \<Rightarrow> int" where
  "UTC h t = t - tzaLocal h t * msPerMinute"

subsection \<open>Numbers and strings\<close>

text \<open>A JavaScript number, as far as the page meets one: an integer or NaN.\<close>

datatype jsnumber = Num int | NaN

definition digitVal :: "char \<Rightarrow> int option" where
  "digitVal c = map_of (zip ''0123456789'' [0, 1, 2, 3, 4, 5, 6, 7, 8, 9]) c"

definition digitChar :: "int \<Rightarrow> char" where
  "digitChar n = ''0123456789'' ! nat n"

text \<open>The value of a non-empty string of decimal digits, read from the left.\<close>

fun digitsFrom :: "int \<Rightarrow> string \<Rightarrow> int option" where
  "digitsFrom acc [] = Some acc"
| "digitsFrom acc (c # cs) =
     (case digitVal c of None \<Rightarrow> None | Some d \<Rightarrow> digitsFrom (10 * acc + d) cs)"

definition digitsVal :: "string \<Rightarrow> int option" where
  "digitsVal s = (if s = [] then None else digitsFrom 0 s)"

text \<open>
  \<^verbatim>\<open>Number(s)\<close> on a string. The empty string is 0 and a string of decimal digits is
  its value. Every other string is NaN in this model: that is what the language
  gives for text that is no numeric literal; signed, fractional, exponent and
  hexadecimal literals and surrounding white space, which the language also
  accepts, do not occur in a clock string and are not modelled.
\<close>

definition Number :: "string \<Rightarrow> jsnumber" where
  "Number s =
     (if s = [] then Num 0
      else case digitsVal s of None \<Rightarrow> NaN | Some n \<Rightarrow> Num n)"

function showNat :: "nat \<Rightarrow> string" where
  "showNat n = (if n < 10 then [digitChar (int n)]
                else showNat (n div 10) @ [digitChar (int (n mod 10))])"
  by pat_completeness auto
termination
  by (relation "measure id") auto

declare showNat.simps [simp del]

text \<open>\<^verbatim>\<open>toString\<close> of a number, which is also what a template literal inserts.\<close>

definition numToString :: "jsnumber \<Rightarrow> string" where
  "numToString v =
     (case v of NaN \<Rightarrow> ''NaN''
      | Num n \<Rightarrow> (if n < 0 then CHR ''-'' # showNat (nat (- n)) else showNat (nat n)))"

text \<open>An array element that a destructuring pattern finds missing is \<^verbatim>\<open>undefined\<close>.\<close>

definition templateNum :: "jsnumber option \<Rightarrow> string" where
  "templateNum v = (case v of None \<Rightarrow> ''undefined'' | Some n \<Rightarrow> numToString n)"

definition padStart :: "nat \<Rightarrow> char \<Rightarrow> string \<Rightarrow> string" where
  "padStart n c s = replicate (n - length s) c @ s"

text \<open>\<^verbatim>\<open>s.split(sep)\<close> for a separator of one character.\<close>

fun splitStr :: "char \<Rightarrow> string \<Rightarrow> string list" where
  "splitStr sep [] = [[]]"
| "splitStr sep (c # cs) =
     (if c = sep then [] # splitStr sep cs
      else (case splitStr sep cs of [] \<Rightarrow> [[c]] | p # ps \<Rightarrow> (c # p) # ps))"

subsection \<open>The Date object\<close>

text \<open>
  \<^verbatim>\<open>Date.parse\<close>, and with it \<^verbatim>\<open>new Date(string)\<close>. Two forms of the Date Time
  String Format are recognised here, the two that the page builds from a calendar
  date \<^verbatim>\<open>YYYY-MM-DD\<close>:
  \<^item> the date alone, which the language reads as midnight UTC;
  \<^item> the date followed by \<^verbatim>\<open>THH:mm:ss\<close> with no offset, which it reads as local time.
  Each field has exactly the digits shown. As V8 does, a day of the month up to 31
  is accepted for every month and overflows into the next. Every other string goes to
  the host's \<open>parseOther\<close>.
\<close>

definition parseDateOnly :: "string \<Rightarrow> (int \<times> int \<times> int) option" where
  "parseDateOnly s =
     (if length s = 10 \<and> s ! 4 = CHR ''-'' \<and> s ! 7 = CHR ''-'' then
        (case (digitsVal (take 4 s), digitsVal (take 2 (drop 5 s)), digitsVal (drop 8 s)) of
           (Some y, Some m, Some d) \<Rightarrow>
             (if 1 \<le> m \<and> m \<le> 12 \<and> 1 \<le> d \<and> d \<le> 31 then Some (y, m, d) else None)
         | _ \<Rightarrow> None)
      else None)"

definition parseClock :: "string \<Rightarrow> (int \<times> int \<times> int) option" where
  "parseClock s =
     (if length s = 8 \<and> s ! 2 = CHR '':'' \<and> s ! 5 = CHR '':'' then
        (case (digitsVal (take 2 s), digitsVal (take 2 (drop 3 s)), digitsVal (drop 6 s)) of
           (Some hh, Some mm, Some ss) \<Rightarrow>
             (if (hh \<le> 23 \<and> mm \<le> 59 \<and> ss \<le> 59) \<or> (hh = 24 \<and> mm = 0 \<and> ss = 0)
              then Some (hh, mm, ss) else None)
         | _ \<Rightarrow> None)
      else None)"

definition parseDateTime :: "string \<Rightarrow> ((int \<times> int \<times> int) \<times> (int \<times> int \<times> int)) option" where
  "parseDateTime s =
     (if length s = 19 \<and> s ! 10 = CHR ''T'' then
        (case (parseDateOnly (take 10 s), parseClock (drop 11 s)) of
           (Some d, Some c) \<Rightarrow> Some (d, c)
         | _ \<Rightarrow> None)
      else None)"

definition dateParse :: "host \<Rightarrow> string \<Rightarrow> jsDate" where
  "dateParse h s =
     (case parseDateOnly s of
        Some (y, m, d) \<Rightarrow> TimeClip (MakeDate (MakeDay y (m - 1) d) 0)
      | None \<Rightarrow>
          (case parseDateTime s of
             Some ((y, m, d), (hh, mm, ss)) \<Rightarrow>
               TimeClip (UTC h (MakeDate (MakeDay y (m - 1) d) (MakeTime hh mm ss 0)))
           | None \<Rightarrow> parseOther h s))"

text \<open>\<^verbatim>\<open>new Date(value)\<close> for a number.\<close>

definition dateOfNumber :: "int \<Rightarrow> jsDate" where
  "dateOfNumber v = TimeClip v"

text \<open>\<^verbatim>\<open>new Date(year, month, date)\<close>: local midnight; a year from 0 to 99 means 19xx.\<close>

definition dateOfFields :: "host \<Rightarrow> jsnumber \<Rightarrow> int \<Rightarrow> int \<Rightarrow> jsDate" where
  "dateOfFields h year month date =
     (case year of
        NaN \<Rightarrow> None
      | Num y \<Rightarrow>
          (let yr = (if 0 \<le> y \<and> y \<le> 99 then 1900 + y else y)
           in TimeClip (UTC h (MakeDate (MakeDay yr month date) (MakeTime 0 0 0 0)))))"

text \<open>The offset is positive west of Greenwich, in minutes.\<close>

definition getTimezoneOffset :: "host \<Rightarrow> jsDate \<Rightarrow> jsnumber" where
  "getTimezoneOffset h d =
     (case d of None \<Rightarrow> NaN | Some t \<Rightarrow> Num ((t - LocalTime h t) div msPerMinute))"

definition getFullYear :: "host \<Rightarrow> jsDate \<Rightarrow> jsnumber" where
  "getFullYear h d = (case d of None \<Rightarrow> NaN | Some t \<Rightarrow> Num (YearFromTime (LocalTime h t)))"

definition getHours :: "host \<Rightarrow> jsDate \<Rightarrow> jsnumber" where
  "getHours h d = (case d of None \<Rightarrow> NaN | Some t \<Rightarrow> Num (HourFromTime (LocalTime h t)))"

definition getMinutes :: "host \<Rightarrow> jsDate \<Rightarrow> jsnumber" where
  "getMinutes h d = (case d of None \<Rightarrow> NaN | Some t \<Rightarrow> Num (MinFromTime (LocalTime h t)))"

definition jsPlus :: "jsnumber \<Rightarrow> int \<Rightarrow> jsnumber" where
  "jsPlus v k = (case v of NaN \<Rightarrow> NaN | Num n \<Rightarrow> Num (n + k))"

text \<open>\<^verbatim>\<open>setMinutes(min)\<close> returns the date it leaves in the object.\<close>

definition setMinutes :: "host \<Rightarrow> jsDate \<Rightarrow> jsnumber \<Rightarrow> jsDate" where
  "setMinutes h d m =
     (case (d, m) of
        (Some t, Num mins) \<Rightarrow>
          (let tl = LocalTime h t
           in TimeClip (UTC h (MakeDate (Day tl)
                (MakeTime (HourFromTime tl) mins (SecFromTime tl) (msFromTime tl)))))
      | _ \<Rightarrow> None)"

text \<open>The relational operators are false as soon as one side is NaN.\<close>

definition jsLess :: "jsnumber \<Rightarrow> jsnumber \<Rightarrow> bool" where
  "jsLess a b = (case (a, b) of (Num x, Num y) \<Rightarrow> x < y | _ \<Rightarrow> False)"

definition dateLe :: "jsDate \<Rightarrow> jsDate \<Rightarrow> bool" where
  "dateLe a b = (case (a, b) of (Some x, Some y) \<Rightarrow> x \<le> y | _ \<Rightarrow> False)"

text \<open>
  \<^verbatim>\<open>d.toISOString().split('T')[0]\<close>: the UTC calendar date, with four digits for a
  year from 0 to 9999 and a sign and six digits otherwise. \<^verbatim>\<open>toISOString\<close> throws
  a RangeError on an invalid date.
\<close>

definition padNat :: "nat \<Rightarrow> int \<Rightarrow> string" where
  "padNat w n = padStart w (CHR ''0'') (showNat (nat n))"

definition isoYear :: "int \<Rightarrow> string" where
  "isoYear y =
     (if 0 \<le> y \<and> y \<le> 9999 then padNat 4 y
      else (if y < 0 then CHR ''-'' else CHR ''+'') # padNat 6 \<bar>y\<bar>)"

definition toISODate :: "jsDate \<Rightarrow> signal + string" where
  "toISODate d =
     (case d of
        None \<Rightarrow> Inl RangeError
      | Some t \<Rightarrow>
          Inr (isoYear (YearFromTime t) @ ''-'' @ padNat 2 (MonthFromTime t + 1)
               @ ''-'' @ padNat 2 (DateFromTime t)))"

subsection \<open>The offset helper\<close>

definition getETOffset :: "host \<Rightarrow> string \<Rightarrow> string" where
  "getETOffset h date =
     (let dateObj = dateParse h date;
          isDST = jsLess (getTimezoneOffset h dateObj)
                    (getTimezoneOffset h (dateOfFields h (getFullYear h dateObj) 0 1))
      in if isDST then ''-04:00'' else ''-05:00'')"

subsection \<open>Hosts\<close>

text \<open>
  Concrete hosts, on which the page is evaluated below. A strict parser rejects what
  is outside the format; this is what V8, the engine of Node.js, answers for a
  string that starts with a calendar date and a \<^verbatim>\<open>T\<close> and then departs from
  \<^verbatim>\<open>HH:mm\<close>. Other strings outside the two forms, a date with one-digit fields
  for one, V8 reads by rules of its own; the strict parser stands for V8 only on the
  strings the page builds from a calendar date.
\<close>

definition strictParse :: "string \<Rightarrow> jsDate" where
  "strictParse s = None"

text \<open>The first Sunday on or after a day number.\<close>

definition sundayFrom :: "int \<Rightarrow> int" where
  "sundayFrom d = d + (7 - (d + 4) mod 7) mod 7"

text \<open>
  US Eastern time under the rules in force since 2007, applied to every year:
  daylight time from 2:00 standard time on the second Sunday of March to 2:00
  daylight time on the first Sunday of November. A local time that a change skips or
  repeats takes the offset in force before the change. For a year before 2007 the
  days of the change differ from those of a real host.
\<close>

definition easternUTC :: "int \<Rightarrow> int" where
  "easternUTC t =
     (let y = YearFromTime t;
          start = sundayFrom (MakeDay y 2 8) * msPerDay + 7 * msPerHour;
          stop = sundayFrom (MakeDay y 10 1) * msPerDay + 6 * msPerHour
      in if start \<le> t \<and> t < stop then - 240 else - 300)"

definition easternLocal :: "int \<Rightarrow> int" where
  "easternLocal t =
     (let y = YearFromTime t;
          start = sundayFrom (MakeDay y 2 8) * msPerDay + 3 * msPerHour;
          stop = sundayFrom (MakeDay y 10 1) * msPerDay + 2 * msPerHour
      in if start \<le> t \<and> t < stop then - 240 else - 300)"

text \<open>
  Sydney time: daylight time from 2:00 standard time on the first Sunday of October
  to 3:00 daylight time on the first Sunday of April, so the year begins in
  daylight time.
\<close>

definition sydneyUTC :: "int \<Rightarrow> int" where
  "sydneyUTC t =
     (let y = YearFromTime t;
          stop = sundayFrom (MakeDay y 3 1) * msPerDay - 8 * msPerHour;
          start = sundayFrom (MakeDay y 9 1) * msPerDay - 8 * msPerHour
      in if stop \<le> t \<and> t < start then 600 else 660)"

definition sydneyLocal :: "int \<Rightarrow> int" where
  "sydneyLocal t =
     (let y = YearFromTime t;
          stop = sundayFrom (MakeDay y 3 1) * msPerDay + 3 * msPerHour;
          start = sundayFrom (MakeDay y 9 1) * msPerDay + 3 * msPerHour
      in if stop \<le> t \<and> t < start then 600 else 660)"

text \<open>
  A formatter for the pattern \<^verbatim>\<open>yyyy-MM-dd'T'HH:mm:ssXXX\<close> in US Eastern time, standing
  for the library's on the concrete hosts. The library throws a RangeError on an
  invalid date.
\<close>

definition easternFormat :: "jsDate \<Rightarrow> string \<Rightarrow> string \<Rightarrow> signal + string" where
  "easternFormat d zone pattern =
     (case d of
        None \<Rightarrow> Inl RangeError
      | Some t \<Rightarrow>
          (let off = easternUTC t; tl = t + off * msPerMinute
           in case toISODate (Some tl) of
                Inl e \<Rightarrow> Inl e
              | Inr day \<Rightarrow>
                  Inr (day @ ''T'' @ padNat 2 (HourFromTime tl) @ '':'' @ padNat 2 (MinFromTime tl)
                       @ '':'' @ padNat 2 (SecFromTime tl)
                       @ (if off = - 240 then ''-04:00'' else ''-05:00''))))"

definition easternHost :: host where
  "easternHost = \<lparr> tzaUTC = easternUTC, tzaLocal = easternLocal,
                   parseOther = strictParse, formatInTimeZone = easternFormat \<rparr>"

definition sydneyHost :: host where
  "sydneyHost = \<lparr> tzaUTC = sydneyUTC, tzaLocal = sydneyLocal,
                  parseOther = strictParse, formatInTimeZone = easternFormat \<rparr>"

definition utcHost :: host where
  "utcHost = \<lparr> tzaUTC = (\<lambda>t. 0), tzaLocal = (\<lambda>t. 0),
               parseOther = strictParse, formatInTimeZone = easternFormat \<rparr>"

subsection \<open>Records of the database\<close>

text \<open>
  The fields of an event that the page reads. The artist of an event is a relation
  of the database; \<open>artistRef\<close> is its key. \<open>setTimes\<close> is optional in the page's
  type \<^verbatim>\<open>EventWithArtist\<close>, and the page tests it before use.
\<close>

record venue =
  venueName :: string
  venueSlug :: string

record artist =
  artistId :: string
  artistName :: string

record event =
  eventId :: string
  slug :: string
  name :: string
  dateString :: string
  url :: string
  logline :: "string option"
  artistRef :: "string option"
  venue :: venue
  setTimes :: "string list option"

record database =
  eventTable :: "event list"
  artistTable :: "artist list"

subsection \<open>Start and end instants of the structured data\<close>

definition arrayAt :: "'a list \<Rightarrow> nat \<Rightarrow> 'a option" where
  "arrayAt xs i = (if i < length xs then Some (xs ! i) else None)"

definition startPattern :: string where
  "startPattern = ''yyyy-MM-dd'' @ [CHR 0x27] @ ''T'' @ [CHR 0x27] @ ''HH:mm:ssXXX''"

definition startDate :: "host \<Rightarrow> event \<Rightarrow> signal + string" where
  "startDate h e =
     (case setTimes e of
        Some (t # ts) \<Rightarrow> Inr (dateString e @ ''T'' @ t @ '':00'' @ getETOffset h (dateString e))
      | _ \<Rightarrow> formatInTimeZone h (dateParse h (dateString e @ ''T00:00:00''))
               ''America/New_York'' startPattern)"

definition endDate :: "host \<Rightarrow> event \<Rightarrow> string option" where
  "endDate h e =
     (case setTimes e of
        Some (t # ts) \<Rightarrow>
          (let parts = map Number (splitStr (CHR '':'') (last (t # ts)));
               hours = arrayAt parts 0;
               minutes = arrayAt parts 1;
               endTime = dateParse h (dateString e @ ''T'' @ templateNum hours @ '':''
                                      @ templateNum minutes @ '':00'');
               endTime' = setMinutes h endTime (jsPlus (getMinutes h endTime) 90)
           in Some (dateString e @ ''T''
                    @ padStart 2 (CHR ''0'') (numToString (getHours h endTime')) @ '':''
                    @ padStart 2 (CHR ''0'') (numToString (getMinutes h endTime')) @ '':00''
                    @ getETOffset h (dateString e)))
      | _ \<Rightarrow> None)"

subsection \<open>The events of the artist: query and filter\<close>

text \<open>
  \<open>clock k\<close> is the \<open>k\<close>-th reading of the system clock during a request, in
  milliseconds. The page reads it twice to build the query and once for each row
  that the filter visits. \<open>daysAhead\<close> is \<^verbatim>\<open>EVENT_CONFIG.DAYS_AHEAD\<close>, a constant of a
  file outside this source tree.
\<close>

definition cutoffValue :: "int \<Rightarrow> int \<Rightarrow> int" where
  "cutoffValue daysAhead now = now + daysAhead * 24 * 60 * 60 * 1000"

text \<open>The two bounds of the \<^verbatim>\<open>where\<close> clause on \<^verbatim>\<open>dateString\<close>.\<close>

definition whereBounds :: "int \<Rightarrow> (nat \<Rightarrow> int) \<Rightarrow> signal + (string \<times> string)" where
  "whereBounds daysAhead clock =
     (case toISODate (dateOfNumber (clock 0)) of
        Inl err \<Rightarrow> Inl err
      | Inr gte \<Rightarrow>
          (case toISODate (dateOfNumber (cutoffValue daysAhead (clock 1))) of
             Inl err \<Rightarrow> Inl err
           | Inr lt \<Rightarrow> Inr (gte, lt)))"

text \<open>
  The nested query \<^verbatim>\<open>artist.events\<close>: the \<^verbatim>\<open>where\<close> clause, then
  \<^verbatim>\<open>orderBy: { dateString: 'asc' }\<close>. Strings compare character by character. The
  database decides the order of rows with equal keys; the model keeps them in table
  order.
\<close>

definition eventsWhere :: "string \<times> string \<Rightarrow> string \<Rightarrow> event list \<Rightarrow> event list" where
  "eventsWhere bounds viewed evs =
     sort_key dateString
       (filter (\<lambda>e. fst bounds \<le> dateString e \<and> dateString e < snd bounds \<and> slug e \<noteq> viewed) evs)"

text \<open>The filter in front of \<^verbatim>\<open>ShowsList\<close>, row by row from clock reading \<open>k\<close> on.\<close>

fun moreDatesFrom :: "host \<Rightarrow> int \<Rightarrow> (nat \<Rightarrow> int) \<Rightarrow> nat \<Rightarrow> event list \<Rightarrow> event list" where
  "moreDatesFrom h daysAhead clock k [] = []"
| "moreDatesFrom h daysAhead clock k (e # es) =
     (let eventDate = dateParse h (dateString e);
          cutoffDate = dateOfNumber (cutoffValue daysAhead (clock k))
      in if dateLe eventDate cutoffDate
         then e # moreDatesFrom h daysAhead clock (Suc k) es
         else moreDatesFrom h daysAhead clock (Suc k) es)"

text \<open>Query and filter together, on the list of all events of one artist.\<close>

definition eventWindow ::
  "host \<Rightarrow> int \<Rightarrow> (nat \<Rightarrow> int) \<Rightarrow> string \<Rightarrow> event list \<Rightarrow> signal + event list" where
  "eventWindow h daysAhead clock viewed evs =
     (case whereBounds daysAhead clock of
        Inl err \<Rightarrow> Inl err
      | Inr bounds \<Rightarrow> Inr (moreDatesFrom h daysAhead clock 2 (eventsWhere bounds viewed evs)))"

subsection \<open>The data-fetch layer\<close>

text \<open>
  A fetch looks the slug up and leaves a trace in the log of the requests made to the
  database. What \<^verbatim>\<open>Page\<close> fetches carries the artist with the rows of the nested
  query.
\<close>

record artistWithEvents =
  fetchedName :: string
  fetchedEvents :: "event list"

definition findArtist :: "database \<Rightarrow> event \<Rightarrow> artist option" where
  "findArtist db e =
     (case artistRef e of
        None \<Rightarrow> None
      | Some a \<Rightarrow> find (\<lambda>r. artistId r = a) (artistTable db))"

definition findUnique :: "database \<Rightarrow> string \<Rightarrow> string list \<Rightarrow> event option \<times> string list" where
  "findUnique db s log = (find (\<lambda>e. slug e = s) (eventTable db), log @ [s])"

definition artistEvents :: "database \<Rightarrow> artist \<Rightarrow> event list" where
  "artistEvents db a = filter (\<lambda>e. artistRef e = Some (artistId a)) (eventTable db)"

definition fetchArtist ::
  "database \<Rightarrow> string \<times> string \<Rightarrow> string \<Rightarrow> event \<Rightarrow> artistWithEvents option" where
  "fetchArtist db bounds viewed e =
     (case findArtist db e of
        None \<Rightarrow> None
      | Some a \<Rightarrow>
          Some \<lparr> fetchedName = artistName a,
                 fetchedEvents = eventsWhere bounds viewed (artistEvents db a) \<rparr>)"

subsection \<open>Metadata\<close>

record openGraph =
  ogTitle :: string
  ogDescription :: string
  ogUrl :: string

record twitter =
  twCard :: string
  twTitle :: string
  twDescription :: string

record metadata =
  title :: "string option"
  description :: "string option"
  openGraph :: "openGraph option"
  twitter :: "twitter option"

definition emptyMetadata :: metadata where
  "emptyMetadata = \<lparr> title = None, description = None, openGraph = None, twitter = None \<rparr>"

text \<open>\<^verbatim>\<open>a || b\<close> on strings: an absent or empty left side gives the right side.\<close>

definition orElse :: "string option \<Rightarrow> string \<Rightarrow> string" where
  "orElse a b = (case a of None \<Rightarrow> b | Some s \<Rightarrow> (if s = [] then b else s))"

definition describeEvent :: "event \<Rightarrow> string option \<Rightarrow> string" where
  "describeEvent e artistNm =
     orElse (logline e)
       (''Join '' @ orElse artistNm ''us'' @ '' at '' @ venueName (venue e)
        @ '' for an unforgettable jazz experience.'')"

definition pageTitle :: "event \<Rightarrow> string" where
  "pageTitle e = name e @ '' at '' @ venueName (venue e) @ '' | Atrium Jazz''"

definition generateMetadata ::
  "database \<Rightarrow> string \<Rightarrow> string list \<Rightarrow> (signal + metadata) \<times> string list" where
  "generateMetadata db s log =
     (case findUnique db s log of
        (None, log') \<Rightarrow> (Inr emptyMetadata, log')
      | (Some e, log') \<Rightarrow>
          (let d = describeEvent e (map_option artistName (findArtist db e))
           in (Inr \<lparr> title = Some (pageTitle e),
                     description = Some d,
                     openGraph = Some \<lparr> ogTitle = pageTitle e, ogDescription = d,
                                        ogUrl = ''https://www.atriumjazz.com/event/'' @ s \<rparr>,
                     twitter = Some \<lparr> twCard = ''summary_large_image'', twTitle = pageTitle e,
                                      twDescription = d \<rparr> \<rparr>, log')))"

subsection \<open>The page\<close>

text \<open>
  What \<^verbatim>\<open>Page\<close> computes, without the markup around it: the name, the description
  and the two instants of the structured data, and the list handed to
  \<^verbatim>\<open>ShowsList\<close>, which is absent when the section "More Dates" is not rendered.
  \<^verbatim>\<open>notFound()\<close> throws; it is the signal \<open>NotFound\<close>.
\<close>

record view =
  ldName :: string
  ldDescription :: string
  ldStartDate :: string
  ldEndDate :: "string option"
  showsList :: "event list option"

definition Page ::
  "host \<Rightarrow> database \<Rightarrow> int \<Rightarrow> (nat \<Rightarrow> int) \<Rightarrow> string \<Rightarrow> string list
     \<Rightarrow> (signal + view) \<times> string list" where
  "Page h db daysAhead clock s log =
     (case whereBounds daysAhead clock of
        Inl err \<Rightarrow> (Inl err, log)
      | Inr bounds \<Rightarrow>
          (case findUnique db s log of
             (None, log') \<Rightarrow> (Inl NotFound, log')
           | (Some e, log') \<Rightarrow>
               (let a = fetchArtist db bounds s e in
                case startDate h e of
                  Inl err \<Rightarrow> (Inl err, log')
                | Inr start \<Rightarrow>
                    (Inr \<lparr> ldName = name e,
                           ldDescription = describeEvent e (map_option fetchedName a),
                           ldStartDate = start,
                           ldEndDate = endDate h e,
                           showsList =
                             (case a of
                                None \<Rightarrow> None
                              | Some r \<Rightarrow>
                                  (if fetchedEvents r = [] then None
                                   else Some (moreDatesFrom h daysAhead clock 2 (fetchedEvents r)))) \<rparr>,
                     log'))))"

subsection \<open>Notions used in the statements\<close>

text \<open>The fields of a clock string \<^verbatim>\<open>HH:MM\<close>, the form in which set times are stored.\<close>

definition clockFields :: "string \<Rightarrow> (int \<times> int) option" where
  "clockFields s =
     (if length s = 5 \<and> s ! 2 = CHR '':'' then
        (case (digitsVal (take 2 s), digitsVal (drop 3 s)) of
           (Some hh, Some mm) \<Rightarrow> (if hh \<le> 23 \<and> mm \<le> 59 then Some (hh, mm) else None)
         | _ \<Rightarrow> None)
      else None)"

text \<open>
  The shape \<^verbatim>\<open>YYYY-MM-DDTHH:mm:ss\<close> followed by a sign and \<^verbatim>\<open>HH:mm\<close>, every field
  with its full number of digits and within its range. Whether the day exists in
  the month is not checked.
\<close>

definition isOffsetInstant :: "string \<Rightarrow> bool" where
  "isOffsetInstant s =
     (length s = 25 \<and> parseDateOnly (take 10 s) \<noteq> None \<and> s ! 10 = CHR ''T''
      \<and> parseClock (take 8 (drop 11 s)) \<noteq> None
      \<and> (s ! 19 = CHR ''+'' \<or> s ! 19 = CHR ''-'')
      \<and> clockFields (drop 20 s) \<noteq> None)"

text \<open>
  A local time value is regular on a host when the host represents it by a valid
  date that reads back as the same local time. A local time that a change of offset
  skips is not regular.
\<close>

definition regularAt :: "host \<Rightarrow> int \<Rightarrow> bool" where
  "regularAt h t = (\<bar>UTC h t\<bar> \<le> 8640000000000000 \<and> LocalTime h (UTC h t) = t)"

text \<open>
  The end instant in the words of the specification: the date, the last set time
  plus 90 minutes as a clock time, and the resolved offset.
\<close>

definition specEndDate :: "host \<Rightarrow> event \<Rightarrow> string option" where
  "specEndDate h e =
     (case setTimes e of
        Some (t # ts) \<Rightarrow>
          (case clockFields (last (t # ts)) of
             None \<Rightarrow> None
           | Some (hh, mm) \<Rightarrow>
               Some (dateString e @ ''T'' @ padNat 2 (((hh * 60 + mm + 90) div 60) mod 24)
                     @ '':'' @ padNat 2 ((mm + 90) mod 60) @ '':00''
                     @ getETOffset h (dateString e)))
      | _ \<Rightarrow> None)"

text \<open>
  The filter in the words of the specification: the events whose date is not after
  now plus the horizon and whose slug is not the viewed one.
\<close>

definition specWindow :: "host \<Rightarrow> int \<Rightarrow> int \<Rightarrow> string \<Rightarrow> event list \<Rightarrow> event list" where
  "specWindow h daysAhead now viewed evs =
     filter (\<lambda>e. dateLe (dateParse h (dateString e)) (dateOfNumber (cutoffValue daysAhead now))
                  \<and> slug e \<noteq> viewed) evs"

text \<open>
  Daylight time in the words of the specification: the offset of the date differs
  from the offset on 1 January of the year of the date.
\<close>

definition specDaylight :: "host \<Rightarrow> string \<Rightarrow> bool" where
  "specDaylight h date =
     (case parseDateOnly date of
        None \<Rightarrow> False
      | Some (y, m, d) \<Rightarrow>
          getTimezoneOffset h (dateParse h date)
            \<noteq> getTimezoneOffset h (TimeClip (UTC h (MakeDate (MakeDay y 0 1) 0))))"


subsection \<open>Sample data\<close>

definition gig :: "string \<Rightarrow> string \<Rightarrow> string list option \<Rightarrow> event" where
  "gig s d st =
     \<lparr> eventId = s, slug = s, name = ''Late Set'', dateString = d,
       url = ''https://tickets.example/'' @ s, logline = None, artistRef = Some ''a1'',
       venue = \<lparr> venueName = ''Atrium'', venueSlug = ''atrium'' \<rparr>, setTimes = st \<rparr>"

definition sampleDb :: database where
  "sampleDb =
     \<lparr> eventTable = [gig ''plus40'' ''2025-07-11'' (Some [''19:30'']),
                     gig ''today'' ''2025-06-01'' (Some [''20:00'', ''21:30'']),
                     gig ''plus10'' ''2025-06-11'' None],
       artistTable = [\<lparr> artistId = ''a1'', artistName = ''Ann'' \<rparr>] \<rparr>"

text \<open>Fifteen hours into 1 June 2025, UTC, in milliseconds.\<close>

definition sampleNow :: int where
  "sampleNow = 1748790000000"

section \<open>Properties\<close>

subsection \<open>Parsing a local date and time\<close>

lemma parseDateOnly_length: "parseDateOnly s = Some r \<Longrightarrow> length s = 10"
  by (simp add: parseDateOnly_def split: if_splits)

lemma parseClock_length: "parseClock c = Some r \<Longrightarrow> length c = 8"
  by (simp add: parseClock_def split: if_splits)

lemma dateParse_local:
  assumes d: "parseDateOnly ds = Some (y, m, d)"
    and c: "parseClock c = Some (hh, mm, ss)"
  shows "dateParse h (ds @ ''T'' @ c) =
           TimeClip (UTC h (MakeDate (MakeDay y (m - 1) d) (MakeTime hh mm ss 0)))"
proof -
  have ld: "length ds = 10" using d by (rule parseDateOnly_length)
  have lc: "length c = 8" using c by (rule parseClock_length)
  have no: "parseDateOnly (ds @ ''T'' @ c) = None"
    using ld lc by (simp add: parseDateOnly_def)
  have dt: "parseDateTime (ds @ ''T'' @ c) = Some ((y, m, d), (hh, mm, ss))"
    using ld lc d c by (simp add: parseDateTime_def nth_append)
  show ?thesis using no dt by (simp add: dateParse_def)
qed

lemma parseClock_midnight: "parseClock ''00:00:00'' = Some (0, 0, 0)"
  by (simp add: parseClock_def digitsVal_def digitVal_def)

subsection \<open>Digits and clock strings\<close>

lemma digitVal_Some:
  "digitVal a = Some x \<Longrightarrow> a \<noteq> CHR '':'' \<and> 0 \<le> x \<and> x \<le> 9 \<and> digitChar x = a"
  by (auto simp: digitVal_def digitChar_def split: if_splits)

lemma digitsVal_two:
  "digitsVal [a, b] = Some n \<Longrightarrow> \<exists>x y. digitVal a = Some x \<and> digitVal b = Some y \<and> n = 10 * x + y"
  by (auto simp: digitsVal_def split: option.splits)

lemma showNat_one: "n < 10 \<Longrightarrow> showNat n = [digitChar (int n)]"
  by (subst showNat.simps) simp

lemma showNat_two:
  assumes "0 \<le> x" "x \<le> 9" "0 \<le> y" "y \<le> 9" "10 \<le> 10 * x + y"
  shows "showNat (nat (10 * x + y)) = [digitChar x, digitChar y]"
proof -
  obtain a b where ab: "x = int a" "y = int b"
    using assms by (metis nonneg_int_cases)
  have n: "nat (10 * x + y) = 10 * a + b"
    using ab by simp
  have b: "b < 10" and a: "a < 10" and big: "\<not> 10 * a + b < 10"
    using assms ab by auto
  have "showNat (10 * a + b) = showNat a @ [digitChar (int b)]"
    using b big by (subst showNat.simps) simp
  also have "showNat a = [digitChar (int a)]"
    using a by (rule showNat_one)
  finally show ?thesis using n ab by simp
qed

lemma clockFields_shape:
  assumes "clockFields s = Some (hh, mm)"
  shows "\<exists>a b c d. s = [a, b, CHR '':'', c, d] \<and> digitsVal [a, b] = Some hh
           \<and> digitsVal [c, d] = Some mm \<and> hh \<le> 23 \<and> mm \<le> 59"
proof -
  from assms have l: "length s = 5"
    by (simp add: clockFields_def split: if_splits)
  then obtain a b x c d where s: "s = [a, b, x, c, d]"
    by (auto simp: length_Suc_conv eval_nat_numeral)
  with assms show ?thesis
    by (auto simp: clockFields_def split: if_splits option.splits)
qed

lemma showNat_length:
  assumes "0 \<le> v" "v \<le> 99"
  shows "length (showNat (nat v)) = (if v < 10 then 1 else 2)"
proof (cases "v < 10")
  case True
  then show ?thesis using assms by (simp add: showNat_one)
next
  case False
  have "showNat (nat v) = showNat (nat v div 10) @ [digitChar (int (nat v mod 10))]"
    using False by (subst showNat.simps) simp
  moreover have "nat v div 10 < 10" using assms by simp
  ultimately show ?thesis using False by (simp add: showNat_one)
qed

lemma clock_split:
  assumes "digitVal a = Some x1" "digitVal b = Some x2" "digitVal c = Some x3" "digitVal d = Some x4"
  shows "splitStr (CHR '':'') [a, b, CHR '':'', c, d] = [[a, b], [c, d]]"
  using assms [THEN digitVal_Some] by simp

lemma Number_digits: "digitsVal s = Some n \<Longrightarrow> Number s = Num n"
  by (auto simp: Number_def digitsVal_def split: if_splits)

lemma parseClock_fields:
  assumes "digitsVal [a, b] = Some hh" "digitsVal [c, d] = Some mm" "hh \<le> 23" "mm \<le> 59"
  shows "parseClock [a, b, CHR '':'', c, d, CHR '':'', CHR ''0'', CHR ''0''] = Some (hh, mm, 0)"
proof -
  have z: "digitsVal ''00'' = Some 0"
    by (simp add: digitsVal_def digitVal_def)
  show ?thesis using assms z by (simp add: parseClock_def)
qed

lemma pad_number:
  "0 \<le> v \<Longrightarrow> padStart 2 (CHR ''0'') (numToString (Num v)) = padNat 2 v"
  by (simp add: numToString_def padNat_def)

lemma digitVal_digitChar: "0 \<le> x \<Longrightarrow> x \<le> 9 \<Longrightarrow> digitVal (digitChar x) = Some x"
proof -
  assume "0 \<le> x" "x \<le> 9"
  then have "x = 0 \<or> x = 1 \<or> x = 2 \<or> x = 3 \<or> x = 4 \<or> x = 5 \<or> x = 6 \<or> x = 7 \<or> x = 8 \<or> x = 9"
    by arith
  then show ?thesis
    by (auto simp: digitVal_def digitChar_def)
qed

lemma padNat_two:
  assumes "0 \<le> v" "v \<le> 99"
  shows "padNat 2 v = [digitChar (v div 10), digitChar (v mod 10)]"
proof (cases "v < 10")
  case True
  then have "showNat (nat v) = [digitChar v]"
    using assms by (simp add: showNat_one)
  moreover have "v div 10 = 0" "v mod 10 = v"
    using True assms by simp_all
  ultimately show ?thesis
    by (simp add: padNat_def padStart_def digitChar_def)
next
  case False
  have v: "v = 10 * (v div 10) + v mod 10" by simp
  have "showNat (nat (10 * (v div 10) + v mod 10)) = [digitChar (v div 10), digitChar (v mod 10)]"
    using assms False by (intro showNat_two) auto
  then show ?thesis
    using v by (simp add: padNat_def padStart_def)
qed

lemma digitsVal_padNat:
  assumes "0 \<le> v" "v \<le> 99"
  shows "digitsVal (padNat 2 v) = Some v"
proof -
  have a: "digitVal (digitChar (v div 10)) = Some (v div 10)"
    using assms by (intro digitVal_digitChar) auto
  have b: "digitVal (digitChar (v mod 10)) = Some (v mod 10)"
    by (intro digitVal_digitChar) auto
  show ?thesis
    using a b by (simp add: padNat_two [OF assms] digitsVal_def)
qed

subsection \<open>Fields of a local time\<close>

lemma minutes_of_time:
  "MakeDate D (MakeTime hh mm 0 0) = (D * 1440 + hh * 60 + mm) * msPerMinute"
  by (simp add: MakeDate_def MakeTime_def msPerDay_def msPerHour_def msPerMinute_def
      msPerSecond_def algebra_simps)

lemma fields_of_minutes:
  "Day (M * msPerMinute) = M div 1440"
  "HourFromTime (M * msPerMinute) = (M div 60) mod 24"
  "MinFromTime (M * msPerMinute) = M mod 60"
  "SecFromTime (M * msPerMinute) = 0"
  "msFromTime (M * msPerMinute) = 0"
proof -
  have a: "M * 60000 div 86400000 = M div 1440"
    using div_mult_mult2 [of "60000::int" M 1440] by simp
  have b: "M * 60000 div 3600000 = M div 60"
    using div_mult_mult2 [of "60000::int" M 60] by simp
  have c: "M * 60000 div 1000 = M * 60"
    by simp
  show "Day (M * msPerMinute) = M div 1440"
    using a by (simp add: Day_def msPerMinute_def msPerDay_def)
  show "HourFromTime (M * msPerMinute) = (M div 60) mod 24"
    using b by (simp add: HourFromTime_def msPerMinute_def msPerHour_def)
  show "MinFromTime (M * msPerMinute) = M mod 60"
    by (simp add: MinFromTime_def msPerMinute_def)
  show "SecFromTime (M * msPerMinute) = 0"
    using c by (simp add: SecFromTime_def msPerMinute_def msPerSecond_def)
  have "(M * 60 * 1000) mod 1000 = 0" by simp
  then show "msFromTime (M * msPerMinute) = 0"
    by (simp add: msFromTime_def msPerMinute_def msPerSecond_def)
qed

lemma minute_count_fields:
  fixes D hh mm :: int
  assumes "0 \<le> hh" "hh \<le> 23" "0 \<le> mm" "mm \<le> 59"
  shows "(D * 1440 + hh * 60 + mm) div 1440 = D"
    and "((D * 1440 + hh * 60 + mm) div 60) mod 24 = hh"
    and "(D * 1440 + hh * 60 + mm) mod 60 = mm"
proof -
  define K where "K = D * 24 + hh"
  have e1: "D * 1440 + hh * 60 + mm = (hh * 60 + mm) + 1440 * D"
    by simp
  have e2: "D * 1440 + hh * 60 + mm = mm + 60 * K"
    by (simp add: K_def)
  have e3: "K = hh + 24 * D"
    by (simp add: K_def)
  have s1: "(hh * 60 + mm) div 1440 = 0"
    using assms by (simp add: div_pos_pos_trivial)
  have s2: "mm div 60 = 0" "mm mod 60 = mm"
    using assms by (simp_all add: div_pos_pos_trivial mod_pos_pos_trivial)
  have s3: "hh mod 24 = hh"
    using assms by (simp add: mod_pos_pos_trivial)
  show "(D * 1440 + hh * 60 + mm) div 1440 = D"
    unfolding e1 using s1 by simp
  have q: "(D * 1440 + hh * 60 + mm) div 60 = K"
    unfolding e2 using s2 by simp
  show "((D * 1440 + hh * 60 + mm) div 60) mod 24 = hh"
    unfolding q unfolding e3 using s3 by (simp only: mod_mult_self2)
  show "(D * 1440 + hh * 60 + mm) mod 60 = mm"
    unfolding e2 using s2 by (simp only: mod_mult_self2)
qed

lemma minute_count_later:
  fixes D hh mm :: int
  shows "((D * 1440 + hh * 60 + (mm + 90)) div 60) mod 24 = ((hh * 60 + mm + 90) div 60) mod 24"
    and "(D * 1440 + hh * 60 + (mm + 90)) mod 60 = (mm + 90) mod 60"
proof -
  define Q where "Q = (hh * 60 + mm + 90) div 60"
  have e1: "D * 1440 + hh * 60 + (mm + 90) = (hh * 60 + mm + 90) + 60 * (24 * D)"
    by simp
  have e2: "D * 1440 + hh * 60 + (mm + 90) = (mm + 90) + 60 * (D * 24 + hh)"
    by simp
  have q: "(D * 1440 + hh * 60 + (mm + 90)) div 60 = Q + 24 * D"
    unfolding e1 by (simp add: Q_def)
  show "((D * 1440 + hh * 60 + (mm + 90)) div 60) mod 24 = ((hh * 60 + mm + 90) div 60) mod 24"
    unfolding q by (simp only: mod_mult_self2 Q_def)
  show "(D * 1440 + hh * 60 + (mm + 90)) mod 60 = (mm + 90) mod 60"
    unfolding e2 by (simp only: mod_mult_self2)
qed

lemma time_fields:
  fixes D hh mm :: int
  assumes "0 \<le> hh" "hh \<le> 23" "0 \<le> mm" "mm \<le> 59"
  shows "Day (MakeDate D (MakeTime hh mm 0 0)) = D"
    and "HourFromTime (MakeDate D (MakeTime hh mm 0 0)) = hh"
    and "MinFromTime (MakeDate D (MakeTime hh mm 0 0)) = mm"
    and "SecFromTime (MakeDate D (MakeTime hh mm 0 0)) = 0"
    and "msFromTime (MakeDate D (MakeTime hh mm 0 0)) = 0"
  using minute_count_fields [OF assms, of D]
  by (simp_all only: minutes_of_time fields_of_minutes)

lemma time_fields_later:
  fixes D hh mm :: int
  shows "HourFromTime (MakeDate D (MakeTime hh (mm + 90) 0 0)) = ((hh * 60 + mm + 90) div 60) mod 24"
    and "MinFromTime (MakeDate D (MakeTime hh (mm + 90) 0 0)) = (mm + 90) mod 60"
  using minute_count_later [of D hh mm]
  by (simp_all only: minutes_of_time fields_of_minutes)

subsection \<open>The end instant\<close>

lemma regular_date: "regularAt h t \<Longrightarrow> TimeClip (UTC h t) = Some (UTC h t)"
  by (simp add: regularAt_def TimeClip_def)

lemma regular_local: "regularAt h t \<Longrightarrow> LocalTime h (UTC h t) = t"
  by (simp add: regularAt_def)

lemma getETOffset_length: "length (getETOffset h s) = 6"
  by (simp add: getETOffset_def Let_def)

text \<open>
  When hour and minute of the last set time both have two significant digits, the
  string handed to the parser is in the format, and on a host where the two local
  times are regular the end instant is the date, the clock time 90 minutes later, and
  the offset.
\<close>

lemma endDate_two_digits:
  assumes st: "setTimes e = Some ts" "ts \<noteq> []"
    and ck: "clockFields (last ts) = Some (hh, mm)"
    and big: "10 \<le> hh" "10 \<le> mm"
    and ds: "parseDateOnly (dateString e) = Some (y, m, d)"
    and r0: "regularAt h (MakeDate (MakeDay y (m - 1) d) (MakeTime hh mm 0 0))"
    and r1: "regularAt h (MakeDate (MakeDay y (m - 1) d) (MakeTime hh (mm + 90) 0 0))"
  shows "endDate h e =
           Some (dateString e @ ''T'' @ padNat 2 (((hh * 60 + mm + 90) div 60) mod 24)
                 @ '':'' @ padNat 2 ((mm + 90) mod 60) @ '':00'' @ getETOffset h (dateString e))"
proof -
  define D where "D = MakeDay y (m - 1) d"
  define t0 where "t0 = MakeDate D (MakeTime hh mm 0 0)"
  define t1 where "t1 = MakeDate D (MakeTime hh (mm + 90) 0 0)"
  obtain t ts' where ts: "ts = t # ts'"
    using st(2) by (cases ts) auto
  obtain a b c d' where shape: "last ts = [a, b, CHR '':'', c, d']"
    and dh: "digitsVal [a, b] = Some hh" and dm: "digitsVal [c, d'] = Some mm"
    and rng: "hh \<le> 23" "mm \<le> 59"
    using clockFields_shape [OF ck] by blast
  obtain x1 x2 where h1: "digitVal a = Some x1" "digitVal b = Some x2" "hh = 10 * x1 + x2"
    using digitsVal_two [OF dh] by blast
  obtain x3 x4 where m1: "digitVal c = Some x3" "digitVal d' = Some x4" "mm = 10 * x3 + x4"
    using digitsVal_two [OF dm] by blast
  have parts: "map Number (splitStr (CHR '':'') (last ts)) = [Num hh, Num mm]"
    using clock_split [OF h1(1,2) m1(1,2)] Number_digits [OF dh] Number_digits [OF dm]
    by (simp add: shape)
  have sh: "templateNum (Some (Num hh)) = [a, b]"
    using showNat_two [of x1 x2] digitVal_Some [OF h1(1)] digitVal_Some [OF h1(2)] big h1(3)
    by (simp add: templateNum_def numToString_def)
  have sm: "templateNum (Some (Num mm)) = [c, d']"
    using showNat_two [of x3 x4] digitVal_Some [OF m1(1)] digitVal_Some [OF m1(2)] big m1(3)
    by (simp add: templateNum_def numToString_def)
  have str: "dateString e @ ''T'' @ templateNum (Some (Num hh)) @ '':''
               @ templateNum (Some (Num mm)) @ '':00''
             = dateString e @ ''T'' @ [a, b, CHR '':'', c, d', CHR '':'', CHR ''0'', CHR ''0'']"
    by (simp add: sh sm)
  have p0: "dateParse h (dateString e @ ''T'' @ templateNum (Some (Num hh)) @ '':''
               @ templateNum (Some (Num mm)) @ '':00'') = Some (UTC h t0)"
    unfolding str
    using dateParse_local [OF ds parseClock_fields [OF dh dm rng], of h] regular_date [OF r0]
    by (simp add: t0_def D_def)
  have l0: "LocalTime h (UTC h t0) = t0"
    using regular_local [OF r0] by (simp add: t0_def D_def)
  have nn: "0 \<le> hh" "0 \<le> mm" using big by simp_all
  note f0 = time_fields [OF nn(1) rng(1) nn(2) rng(2), of D, folded t0_def]
  have gm: "getMinutes h (Some (UTC h t0)) = Num mm"
    by (simp add: getMinutes_def l0 f0)
  have sm': "setMinutes h (Some (UTC h t0)) (jsPlus (Num mm) 90) = Some (UTC h t1)"
    using regular_date [OF r1]
    by (simp add: setMinutes_def jsPlus_def l0 f0 t1_def D_def Let_def)
  have l1: "LocalTime h (UTC h t1) = t1"
    using regular_local [OF r1] by (simp add: t1_def D_def)
  note f1 = time_fields_later [of D hh mm, folded t1_def]
  have gh1: "getHours h (Some (UTC h t1)) = Num (((hh * 60 + mm + 90) div 60) mod 24)"
    by (simp add: getHours_def l1 f1)
  have gm1: "getMinutes h (Some (UTC h t1)) = Num ((mm + 90) mod 60)"
    by (simp add: getMinutes_def l1 f1)
  have nh: "0 \<le> ((hh * 60 + mm + 90) div 60) mod 24" by simp
  have nm: "0 \<le> (mm + 90) mod 60" by simp
  have A: "arrayAt [Num hh, Num mm] 0 = Some (Num hh)" "arrayAt [Num hh, Num mm] 1 = Some (Num mm)"
    by (simp_all add: arrayAt_def)
  have "endDate h e =
          Some (dateString e @ ''T''
                @ padStart 2 (CHR ''0'') (numToString (Num (((hh * 60 + mm + 90) div 60) mod 24)))
                @ '':'' @ padStart 2 (CHR ''0'') (numToString (Num ((mm + 90) mod 60)))
                @ '':00'' @ getETOffset h (dateString e))"
    by (simp only: endDate_def st(1) ts option.case list.case Let_def parts [unfolded ts]
        A p0 gm sm' gh1 gm1)
  then show ?thesis
    by (simp only: pad_number [OF nh] pad_number [OF nm])
qed

text \<open>
  When the hour or the minute is below ten, the number is written back with one
  digit, the string is outside the format, and a strict parser gives an invalid date.
\<close>

lemma endDate_short_field:
  assumes st: "setTimes e = Some ts" "ts \<noteq> []"
    and ck: "clockFields (last ts) = Some (hh, mm)"
    and small: "hh < 10 \<or> mm < 10"
    and ds: "length (dateString e) = 10"
    and strict: "parseOther h = strictParse"
  shows "endDate h e = Some (dateString e @ ''TNaN:NaN:00'' @ getETOffset h (dateString e))"
proof -
  obtain t ts' where ts: "ts = t # ts'"
    using st(2) by (cases ts) auto
  obtain a b c d' where shape: "last ts = [a, b, CHR '':'', c, d']"
    and dh: "digitsVal [a, b] = Some hh" and dm: "digitsVal [c, d'] = Some mm"
    and rng: "hh \<le> 23" "mm \<le> 59"
    using clockFields_shape [OF ck] by blast
  obtain x1 x2 where h1: "digitVal a = Some x1" "digitVal b = Some x2" "hh = 10 * x1 + x2"
    using digitsVal_two [OF dh] by blast
  obtain x3 x4 where m1: "digitVal c = Some x3" "digitVal d' = Some x4" "mm = 10 * x3 + x4"
    using digitsVal_two [OF dm] by blast
  have nn: "0 \<le> hh" "0 \<le> mm"
    using digitVal_Some [OF h1(1)] digitVal_Some [OF h1(2)] h1(3)
      digitVal_Some [OF m1(1)] digitVal_Some [OF m1(2)] m1(3) by simp_all
  have parts: "map Number (splitStr (CHR '':'') (last ts)) = [Num hh, Num mm]"
    using clock_split [OF h1(1,2) m1(1,2)] Number_digits [OF dh] Number_digits [OF dm]
    by (simp add: shape)
  have A: "arrayAt [Num hh, Num mm] 0 = Some (Num hh)" "arrayAt [Num hh, Num mm] 1 = Some (Num mm)"
    by (simp_all add: arrayAt_def)
  define s where "s = dateString e @ ''T'' @ templateNum (Some (Num hh)) @ '':''
               @ templateNum (Some (Num mm)) @ '':00''"
  have lh: "length (templateNum (Some (Num hh))) = (if hh < 10 then 1 else 2)"
    using showNat_length [of hh] nn rng by (simp add: templateNum_def numToString_def)
  have lm: "length (templateNum (Some (Num mm))) = (if mm < 10 then 1 else 2)"
    using showNat_length [of mm] nn rng by (simp add: templateNum_def numToString_def)
  have len: "length s \<noteq> 10 \<and> length s \<noteq> 19"
    using small ds lh lm by (auto simp: s_def)
  have p0: "dateParse h s = None"
    using len strict by (simp add: dateParse_def parseDateOnly_def parseDateTime_def strictParse_def)
  have gm: "getMinutes h None = NaN" "getHours h None = NaN"
    by (simp_all add: getMinutes_def getHours_def)
  have sm: "setMinutes h None (jsPlus NaN 90) = None"
    by (simp add: setMinutes_def)
  have pd: "padStart 2 (CHR ''0'') (numToString NaN) = ''NaN''"
    by (simp add: padStart_def numToString_def)
  have "endDate h e =
          Some (dateString e @ ''T'' @ ''NaN'' @ '':'' @ ''NaN'' @ '':00'' @ getETOffset h (dateString e))"
    by (simp only: endDate_def st(1) ts option.case list.case Let_def parts [unfolded ts]
        A p0 [unfolded s_def] gm sm pd)
  then show ?thesis by simp
qed

subsection \<open>The shape of the instants\<close>

text \<open>A date, a clock time of two padded fields and the offset have the right shape.\<close>

lemma clock_instant_shape:
  assumes ds: "parseDateOnly s = Some (y, m, d)"
    and hr: "0 \<le> H" "H \<le> 23" and mr: "0 \<le> M" "M \<le> 59"
  shows "isOffsetInstant (s @ ''T'' @ padNat 2 H @ '':'' @ padNat 2 M @ '':00'' @ getETOffset h s)"
proof -
  have ld: "length s = 10"
    using ds by (rule parseDateOnly_length)
  obtain a b where pa: "padNat 2 H = [a, b]"
    using padNat_two [of H] hr by simp
  obtain c e where pc: "padNat 2 M = [c, e]"
    using padNat_two [of M] mr by simp
  have dh: "digitsVal [a, b] = Some H"
    using digitsVal_padNat [of H] hr by (simp add: pa)
  have dm: "digitsVal [c, e] = Some M"
    using digitsVal_padNat [of M] mr by (simp add: pc)
  have pk: "parseClock [a, b, CHR '':'', c, e, CHR '':'', CHR ''0'', CHR ''0''] = Some (H, M, 0)"
    using dh dm hr(2) mr(2) by (rule parseClock_fields)
  have off: "getETOffset h s = ''-04:00'' \<or> getETOffset h s = ''-05:00''"
    by (simp add: getETOffset_def Let_def)
  have cf: "clockFields ''04:00'' = Some (4, 0)" "clockFields ''05:00'' = Some (5, 0)"
    by (simp_all add: clockFields_def digitsVal_def digitVal_def)
  from off show ?thesis
  proof
    assume o: "getETOffset h s = ''-04:00''"
    show ?thesis
      unfolding o using ld ds pk cf
      by (simp add: isOffsetInstant_def pa pc nth_append)
  next
    assume o: "getETOffset h s = ''-05:00''"
    show ?thesis
      unfolding o using ld ds pk cf
      by (simp add: isOffsetInstant_def pa pc nth_append)
  qed
qed

lemma endDate_shape:
  assumes "setTimes e = Some ts" and "ts \<noteq> []"
    and "clockFields (last ts) = Some (hh, mm)"
    and "10 \<le> hh" and "10 \<le> mm"
    and "parseDateOnly (dateString e) = Some (y, m, d)"
    and "regularAt h (MakeDate (MakeDay y (m - 1) d) (MakeTime hh mm 0 0))"
    and "regularAt h (MakeDate (MakeDay y (m - 1) d) (MakeTime hh (mm + 90) 0 0))"
  shows "\<exists>s. endDate h e = Some s \<and> isOffsetInstant s"
proof -
  have "isOffsetInstant (dateString e @ ''T'' @ padNat 2 (((hh * 60 + mm + 90) div 60) mod 24)
          @ '':'' @ padNat 2 ((mm + 90) mod 60) @ '':00'' @ getETOffset h (dateString e))"
    using assms(6) by (rule clock_instant_shape) simp_all
  then show ?thesis
    using endDate_two_digits [OF assms] by simp
qed

text \<open>The start instant is a concatenation and has the right shape.\<close>

lemma startDate_shape:
  assumes st: "setTimes e = Some (t # ts)"
    and ck: "clockFields t = Some (hh, mm)"
    and ds: "parseDateOnly (dateString e) = Some (y, m, d)"
  shows "startDate h e = Inr (dateString e @ ''T'' @ t @ '':00'' @ getETOffset h (dateString e))
         \<and> isOffsetInstant (dateString e @ ''T'' @ t @ '':00'' @ getETOffset h (dateString e))"
proof -
  obtain a b c d' where shape: "t = [a, b, CHR '':'', c, d']"
    and dh: "digitsVal [a, b] = Some hh" and dm: "digitsVal [c, d'] = Some mm"
    and rng: "hh \<le> 23" "mm \<le> 59"
    using clockFields_shape [OF ck] by blast
  have ld: "length (dateString e) = 10"
    using ds by (rule parseDateOnly_length)
  have pc: "parseClock (t @ '':00'') = Some (hh, mm, 0)"
    using parseClock_fields [OF dh dm rng] by (simp add: shape)
  have off: "getETOffset h (dateString e) = ''-04:00'' \<or> getETOffset h (dateString e) = ''-05:00''"
    by (simp add: getETOffset_def Let_def)
  have cf: "clockFields ''04:00'' = Some (4, 0)" "clockFields ''05:00'' = Some (5, 0)"
    by (simp_all add: clockFields_def digitsVal_def digitVal_def)
  have "isOffsetInstant (dateString e @ ''T'' @ t @ '':00'' @ getETOffset h (dateString e))"
    using off
  proof
    assume o: "getETOffset h (dateString e) = ''-04:00''"
    show ?thesis
      unfolding o using ld ds pc cf
      by (simp add: isOffsetInstant_def shape nth_append)
  next
    assume o: "getETOffset h (dateString e) = ''-05:00''"
    show ?thesis
      unfolding o using ld ds pc cf
      by (simp add: isOffsetInstant_def shape nth_append)
  qed
  then show ?thesis using st by (simp add: startDate_def)
qed

subsection \<open>The filter row by row\<close>

lemma moreDatesFrom_subseq: "subseq (moreDatesFrom h d clock k rows) rows"
  by (induction rows arbitrary: k) (auto simp: Let_def)

lemma moreDatesFrom_set: "set (moreDatesFrom h d clock k rows) \<subseteq> set rows"
  by (induction rows arbitrary: k) (auto simp: Let_def)

lemma moreDatesFrom_sorted:
  "sorted (map dateString rows) \<Longrightarrow> sorted (map dateString (moreDatesFrom h d clock k rows))"
proof (induction rows arbitrary: k)
  case Nil
  then show ?case by simp
next
  case (Cons e es)
  have "set (moreDatesFrom h d clock (Suc k) es) \<subseteq> set es"
    by (rule moreDatesFrom_set)
  with Cons show ?case by (auto simp: Let_def)
qed

text \<open>When the clock stands still during the request, the loop is a plain filter.\<close>

lemma moreDatesFrom_still:
  "\<forall>k. clock k = now \<Longrightarrow>
   moreDatesFrom h d clock k rows =
     filter (\<lambda>e. dateLe (dateParse h (dateString e)) (dateOfNumber (cutoffValue d now))) rows"
  by (induction rows arbitrary: k) (auto simp: Let_def)

lemma eventsWhere_slug: "e \<in> set (eventsWhere b v evs) \<Longrightarrow> slug e \<noteq> v"
  by (simp add: eventsWhere_def)

lemma eventsWhere_sorted: "sorted (map dateString (eventsWhere b v evs))"
  by (simp add: eventsWhere_def)

lemma window_slug:
  "e \<in> set (moreDatesFrom h d clock k (eventsWhere b v evs)) \<Longrightarrow> slug e \<noteq> v"
  using moreDatesFrom_set eventsWhere_slug by blast

subsection \<open>The event window\<close>

text \<open>
  Claim C1, as the code has it. The specification says that the window holds exactly
  the events dated no later than now plus the horizon whose slug is not the viewed
  one. The query also asks for a date string not before today's and strictly before
  the date string of the cutoff. With one clock reading \<open>now\<close> for the whole
  request, the window is exactly the events whose slug is not the viewed one, whose
  date string lies from today's UTC date up to but excluding the UTC date of the
  cutoff, and whose date is not after the cutoff, in ascending order of date string.
\<close>

theorem eventWindow_exact:
  assumes still: "\<forall>k. clock k = now"
    and today: "toISODate (dateOfNumber now) = Inr gte"
    and cutoff: "toISODate (dateOfNumber (cutoffValue daysAhead now)) = Inr lt"
  shows "eventWindow h daysAhead clock viewed evs =
           Inr (filter (\<lambda>e. slug e \<noteq> viewed \<and> gte \<le> dateString e \<and> dateString e < lt
                        \<and> dateLe (dateParse h (dateString e))
                             (dateOfNumber (cutoffValue daysAhead now)))
                  (sort_key dateString evs))"
proof -
  have b: "whereBounds daysAhead clock = Inr (gte, lt)"
    using still today cutoff by (simp add: whereBounds_def)
  have "moreDatesFrom h daysAhead clock 2 (eventsWhere (gte, lt) viewed evs) =
          filter (\<lambda>e. dateLe (dateParse h (dateString e)) (dateOfNumber (cutoffValue daysAhead now)))
            (eventsWhere (gte, lt) viewed evs)"
    using still by (rule moreDatesFrom_still)
  also have "\<dots> = filter (\<lambda>e. slug e \<noteq> viewed \<and> gte \<le> dateString e \<and> dateString e < lt
                        \<and> dateLe (dateParse h (dateString e))
                             (dateOfNumber (cutoffValue daysAhead now)))
                  (sort_key dateString evs)"
    by (simp add: eventsWhere_def filter_sort conj_ac)
  finally show ?thesis using b by (simp add: eventWindow_def)
qed

text \<open>
  The scenario of the specification: events dated today, in 10 days and in 40 days,
  a horizon of 30 days, and the event of today viewed. Only the event in 10 days is
  listed.
\<close>

theorem eventWindow_exact_witness:
  "eventWindow easternHost 30 (\<lambda>k. sampleNow) ''today'' (eventTable sampleDb)
     = Inr [gig ''plus10'' ''2025-06-11'' None]"
proof -
  have a: "toISODate (dateOfNumber sampleNow) = Inr ''2025-06-01''"
    by code_simp
  have b: "toISODate (dateOfNumber (cutoffValue 30 sampleNow)) = Inr ''2025-07-01''"
    by code_simp
  have c: "filter (\<lambda>e. slug e \<noteq> ''today'' \<and> ''2025-06-01'' \<le> dateString e
                        \<and> dateString e < ''2025-07-01''
                        \<and> dateLe (dateParse easternHost (dateString e))
                             (dateOfNumber (cutoffValue 30 sampleNow)))
                  (sort_key dateString (eventTable sampleDb)) = [gig ''plus10'' ''2025-06-11'' None]"
    by code_simp
  have s: "\<forall>k. (\<lambda>k::nat. sampleNow) k = sampleNow" by simp
  show ?thesis
    using eventWindow_exact [OF s a b, of easternHost "''today''" "eventTable sampleDb"] c by simp
qed

text \<open>
  An event on the calendar day of the cutoff, 1 July 2025, is dated before the
  cutoff instant, fifteen hours into that day, and its slug is not the viewed one. It
  satisfies the words of the specification, and the code does not list it.
\<close>

theorem eventWindow_spec_counterexample:
  "eventWindow easternHost 30 (\<lambda>k. sampleNow) ''today'' [gig ''edge'' ''2025-07-01'' None]
     \<noteq> Inr (specWindow easternHost 30 sampleNow ''today'' [gig ''edge'' ''2025-07-01'' None])"
  by code_simp

text \<open>The same holds of an event of yesterday.\<close>

lemma eventWindow_drops_past:
  "eventWindow easternHost 30 (\<lambda>k. sampleNow) ''today'' [gig ''past'' ''2025-05-31'' None] = Inr []
   \<and> specWindow easternHost 30 sampleNow ''today'' [gig ''past'' ''2025-05-31'' None]
       = [gig ''past'' ''2025-05-31'' None]"
  by code_simp

text \<open>
  Claim C7: the list of more dates never holds an event with the slug of the viewed
  event, whatever its date; both for the window on a list of events and for the list
  that \<open>Page\<close> hands to the component.
\<close>

theorem moreDates_excludes_viewed:
  "(\<forall>out. eventWindow h daysAhead clock viewed evs = Inr out \<longrightarrow> viewed \<notin> slug ` set out)
   \<and> (\<forall>v log' l. Page h db daysAhead clock viewed log = (Inr v, log') \<longrightarrow>
         showsList v = Some l \<longrightarrow> viewed \<notin> slug ` set l)"
proof (intro conjI allI impI)
  fix out
  assume "eventWindow h daysAhead clock viewed evs = Inr out"
  then obtain b where "out = moreDatesFrom h daysAhead clock 2 (eventsWhere b viewed evs)"
    by (auto simp: eventWindow_def split: sum.splits)
  then show "viewed \<notin> slug ` set out"
    using window_slug by blast
next
  fix v log' l
  assume p: "Page h db daysAhead clock viewed log = (Inr v, log')"
    and l: "showsList v = Some l"
  from p l obtain b e a where
    "l = moreDatesFrom h daysAhead clock 2 (eventsWhere b viewed (artistEvents db a))"
    by (auto simp: Page_def fetchArtist_def Let_def
             split: sum.splits option.splits prod.splits if_splits)
  then show "viewed \<notin> slug ` set l"
    using window_slug by blast
qed

theorem moreDates_excludes_viewed_witness:
  "eventWindow easternHost 30 (\<lambda>k. sampleNow) ''plus10'' (eventTable sampleDb)
     = Inr [gig ''today'' ''2025-06-01'' (Some [''20:00'', ''21:30''])]
   \<and> ''plus10'' \<notin> slug ` set [gig ''today'' ''2025-06-01'' (Some [''20:00'', ''21:30''])]"
proof -
  have a: "eventWindow easternHost 30 (\<lambda>k. sampleNow) ''plus10'' (eventTable sampleDb)
     = Inr [gig ''today'' ''2025-06-01'' (Some [''20:00'', ''21:30''])]"
    by code_simp
  show ?thesis
    using moreDates_excludes_viewed
            [of easternHost 30 "\<lambda>k. sampleNow" "''plus10''" "eventTable sampleDb"] a
    by blast
qed

text \<open>
  Claim C8: the filter in front of the list never reorders. Its result is a
  subsequence of the rows it is given; so are the events of any one date, which keep
  their relative order; rows in ascending order of date string stay so; and the rows
  of the query are in that order, so the window is.
\<close>

theorem filter_keeps_order:
  "subseq (moreDatesFrom h daysAhead clock k rows) rows
   \<and> (\<forall>key. subseq (filter (\<lambda>e. dateString e = key) (moreDatesFrom h daysAhead clock k rows))
               (filter (\<lambda>e. dateString e = key) rows))
   \<and> (sorted (map dateString rows) \<longrightarrow>
        sorted (map dateString (moreDatesFrom h daysAhead clock k rows)))
   \<and> sorted (map dateString (moreDatesFrom h daysAhead clock k (eventsWhere bounds viewed evs)))"
  using moreDatesFrom_subseq moreDatesFrom_sorted eventsWhere_sorted subseq_filter
  by blast

theorem filter_keeps_order_witness:
  "sorted (map dateString [gig ''early'' ''2025-06-11'' None, gig ''late'' ''2025-06-11'' None,
                           gig ''plus40'' ''2025-07-11'' None])
   \<and> moreDatesFrom easternHost 30 (\<lambda>k. sampleNow) 2
        [gig ''early'' ''2025-06-11'' None, gig ''late'' ''2025-06-11'' None,
         gig ''plus40'' ''2025-07-11'' None]
       = [gig ''early'' ''2025-06-11'' None, gig ''late'' ''2025-06-11'' None]
   \<and> sorted (map dateString (moreDatesFrom easternHost 30 (\<lambda>k. sampleNow) 2
        [gig ''early'' ''2025-06-11'' None, gig ''late'' ''2025-06-11'' None,
         gig ''plus40'' ''2025-07-11'' None]))"
proof -
  have a: "sorted (map dateString [gig ''early'' ''2025-06-11'' None,
             gig ''late'' ''2025-06-11'' None, gig ''plus40'' ''2025-07-11'' None])"
    by code_simp
  have b: "moreDatesFrom easternHost 30 (\<lambda>k. sampleNow) 2
        [gig ''early'' ''2025-06-11'' None, gig ''late'' ''2025-06-11'' None,
         gig ''plus40'' ''2025-07-11'' None]
       = [gig ''early'' ''2025-06-11'' None, gig ''late'' ''2025-06-11'' None]"
    by code_simp
  from filter_keeps_order [of easternHost 30 "\<lambda>k. sampleNow" 2
        "[gig ''early'' ''2025-06-11'' None, gig ''late'' ''2025-06-11'' None,
          gig ''plus40'' ''2025-07-11'' None]"] a
  have "sorted (map dateString (moreDatesFrom easternHost 30 (\<lambda>k. sampleNow) 2
        [gig ''early'' ''2025-06-11'' None, gig ''late'' ''2025-06-11'' None,
         gig ''plus40'' ''2025-07-11'' None]))"
    by blast
  with a b show ?thesis by blast
qed

subsection \<open>Missing records\<close>

text \<open>
  Claim C9: when the fetch finds no event for the slug, \<open>Page\<close> ends with the signal
  \<open>NotFound\<close>. The log shows the one fetch and nothing after it, so there is no
  retry, and the outcome carries no view, so no other data stands in.
\<close>

theorem page_not_found:
  assumes "whereBounds daysAhead clock = Inr bounds"
    and "fst (findUnique db s log) = None"
  shows "Page h db daysAhead clock s log = (Inl NotFound, log @ [s])"
  using assms by (simp add: Page_def findUnique_def)

theorem page_not_found_witness:
  "fst (findUnique sampleDb ''nowhere'' []) = None
   \<and> Page easternHost sampleDb 30 (\<lambda>k. sampleNow) ''nowhere'' [] = (Inl NotFound, [''nowhere''])"
proof -
  have a: "whereBounds 30 (\<lambda>k. sampleNow) = Inr (''2025-06-01'', ''2025-07-01'')"
    by code_simp
  have b: "fst (findUnique sampleDb ''nowhere'' []) = None"
    by code_simp
  show ?thesis
    using page_not_found [OF a b, of easternHost] b by simp
qed

text \<open>
  Claim C10: \<open>generateMetadata\<close> never ends with a signal, and when the fetch finds
  no event for the slug it returns the empty metadata object after its one fetch.
  Of the two entry points only \<open>Page\<close> signals \<open>NotFound\<close>.
\<close>

theorem metadata_absent:
  "fst (generateMetadata db s log) \<noteq> Inl NotFound \<and>
   fst (generateMetadata db s log) \<noteq> Inl RangeError \<and>
   (fst (findUnique db s log) = None \<longrightarrow>
      generateMetadata db s log = (Inr emptyMetadata, log @ [s]))"
  by (simp add: generateMetadata_def findUnique_def Let_def split: option.splits)

theorem metadata_absent_witness:
  "fst (findUnique sampleDb ''nowhere'' []) = None
   \<and> generateMetadata sampleDb ''nowhere'' [] = (Inr emptyMetadata, [''nowhere''])"
proof -
  have b: "fst (findUnique sampleDb ''nowhere'' []) = None"
    by code_simp
  show ?thesis
    using metadata_absent [of sampleDb "''nowhere''" "[]"] b by simp
qed

subsection \<open>The calendar\<close>













subsection \<open>Bounds on calendar dates\<close>








subsection \<open>Hosts that keep Eastern time\<close>



subsection \<open>The offset helper\<close>

text \<open>What the helper computes on any host: it compares the two offsets with \<open><\<close>.\<close>

lemma getETOffset_rule:
  "(getETOffset h date = ''-04:00'' \<or> getETOffset h date = ''-05:00'')
   \<and> (getETOffset h date = ''-04:00'' \<longleftrightarrow>
        jsLess (getTimezoneOffset h (dateParse h date))
          (getTimezoneOffset h (dateOfFields h (getFullYear h (dateParse h date)) 0 1)))
   \<and> (\<forall>a b. getTimezoneOffset h (dateParse h date) = Num a \<longrightarrow>
         getTimezoneOffset h (dateOfFields h (getFullYear h (dateParse h date)) 0 1) = Num b \<longrightarrow>
         a \<le> b \<longrightarrow> (getETOffset h date = ''-04:00'' \<longleftrightarrow> a \<noteq> b))"
  by (auto simp: getETOffset_def Let_def jsLess_def)



text \<open>
  Outside that environment the comparison matters. On a host in Sydney time the
  offset on 1 July 2025 is -600 and the offset on 1 January 2025 is -660: they
  differ, the first is not the smaller one, and the helper answers \<^verbatim>\<open>-05:00\<close>.
\<close>

lemma getETOffset_sydney:
  "\<not> (getETOffset sydneyHost ''2025-07-01'' = ''-04:00''
        \<longleftrightarrow> specDaylight sydneyHost ''2025-07-01'')"
  by code_simp

lemma sydney_offsets:
  "getTimezoneOffset sydneyHost (dateParse sydneyHost ''2025-07-01'') = Num (- 600)
   \<and> getTimezoneOffset sydneyHost
        (dateOfFields sydneyHost
           (getFullYear sydneyHost (dateParse sydneyHost ''2025-07-01'')) 0 1) = Num (- 660)
   \<and> getETOffset sydneyHost ''2025-07-01'' = ''-05:00''"
  by code_simp

text \<open>
  On a host whose offset never changes, a server on UTC for one, the helper answers
  \<^verbatim>\<open>-05:00\<close> for every date.
\<close>

lemma getETOffset_fixed_offset:
  assumes "tzaUTC h = (\<lambda>t. k)"
  shows "getETOffset h date = ''-05:00''"
  using assms
  by (auto simp: getETOffset_def Let_def jsLess_def getTimezoneOffset_def LocalTime_def
           split: option.splits jsnumber.splits)

lemma getETOffset_utc_summer: "getETOffset utcHost ''2025-07-01'' = ''-05:00''"
  by (rule getETOffset_fixed_offset [of utcHost 0]) (simp add: utcHost_def)

subsection \<open>Start and end instants\<close>

text \<open>
  Claim C6: for an event with no set times, absent or an empty list, the start
  instant is what the formatter of the library makes, for the zone
  \<^verbatim>\<open>America/New_York\<close>, of the date parsed with the time \<^verbatim>\<open>00:00:00\<close>; no end
  instant is produced; and for a calendar date the parsed date is midnight of that
  date in the local time of the host.
\<close>

theorem startDate_without_setTimes:
  assumes "setTimes e = None \<or> setTimes e = Some []"
  shows "startDate h e =
           formatInTimeZone h (dateParse h (dateString e @ ''T00:00:00''))
             ''America/New_York'' startPattern
         \<and> endDate h e = None
         \<and> (\<forall>y m d. parseDateOnly (dateString e) = Some (y, m, d) \<longrightarrow>
               dateParse h (dateString e @ ''T00:00:00'') =
                 TimeClip (UTC h (MakeDate (MakeDay y (m - 1) d) 0)))"
proof -
  have s: "startDate h e =
           formatInTimeZone h (dateParse h (dateString e @ ''T00:00:00''))
             ''America/New_York'' startPattern"
    using assms by (auto simp: startDate_def)
  have n: "endDate h e = None"
    using assms by (auto simp: endDate_def)
  have p: "dateParse h (dateString e @ ''T00:00:00'') =
                 TimeClip (UTC h (MakeDate (MakeDay y (m - 1) d) 0))"
    if "parseDateOnly (dateString e) = Some (y, m, d)" for y m d
    using dateParse_local [OF that parseClock_midnight, of h] by (simp add: MakeTime_def)
  show ?thesis using s n p by blast
qed

theorem startDate_without_setTimes_witness:
  "startDate easternHost (gig ''plus10'' ''2025-06-11'' None) = Inr ''2025-06-11T00:00:00-04:00''
   \<and> endDate easternHost (gig ''plus10'' ''2025-06-11'' None) = None
   \<and> dateParse easternHost ''2025-06-11T00:00:00'' = Some 1749614400000"
proof -
  have a: "setTimes (gig ''plus10'' ''2025-06-11'' None) = None
           \<or> setTimes (gig ''plus10'' ''2025-06-11'' None) = Some []"
    by (simp add: gig_def)
  have b: "parseDateOnly (dateString (gig ''plus10'' ''2025-06-11'' None)) = Some (2025, 6, 11)"
    by code_simp
  have c: "TimeClip (UTC easternHost (MakeDate (MakeDay 2025 (6 - 1) 11) 0)) = Some 1749614400000"
    by code_simp
  have d: "formatInTimeZone easternHost (Some 1749614400000) ''America/New_York'' startPattern
             = Inr ''2025-06-11T00:00:00-04:00''"
    by code_simp
  have e: "dateString (gig ''plus10'' ''2025-06-11'' None) = ''2025-06-11''"
    by (simp add: gig_def)
  show ?thesis
    using startDate_without_setTimes [OF a, of easternHost] b c d e by simp
qed

text \<open>
  Claim C5: when the last set time is \<^verbatim>\<open>23:15\<close>, the end instant has the clock time
  \<^verbatim>\<open>00:45\<close> behind the event's own date string: the date is not moved to the next
  day. The date string is a calendar date, and the two local times, 23:15 on that
  day and 90 minutes later, are regular on the host.
\<close>

theorem endDate_rollover:
  assumes "setTimes e = Some ts" and "ts \<noteq> []" and "last ts = ''23:15''"
    and "parseDateOnly (dateString e) = Some (y, m, d)"
    and "regularAt h (MakeDate (MakeDay y (m - 1) d) (MakeTime 23 15 0 0))"
    and "regularAt h (MakeDate (MakeDay y (m - 1) d) (MakeTime 23 (15 + 90) 0 0))"
  shows "endDate h e = Some (dateString e @ ''T00:45:00'' @ getETOffset h (dateString e))"
proof -
  have ck: "clockFields (last ts) = Some (23, 15)"
    by (simp add: assms(3) clockFields_def digitsVal_def digitVal_def)
  have p0: "padNat 2 (((23 * 60 + 15 + 90) div 60) mod 24) = ''00''"
    by code_simp
  have p1: "padNat 2 ((15 + 90) mod 60) = ''45''"
    by code_simp
  have "endDate h e =
          Some (dateString e @ ''T'' @ padNat 2 (((23 * 60 + 15 + 90) div 60) mod 24)
                @ '':'' @ padNat 2 ((15 + 90) mod 60) @ '':00'' @ getETOffset h (dateString e))"
    using assms(1,2) ck _ _ assms(4,5,6) by (rule endDate_two_digits) simp_all
  then show ?thesis
    by (simp only: p0 p1) simp
qed

theorem endDate_rollover_witness:
  "endDate easternHost (gig ''late'' ''2025-06-01'' (Some [''21:30'', ''23:15'']))
     = Some ''2025-06-01T00:45:00-04:00''"
proof -
  have a: "setTimes (gig ''late'' ''2025-06-01'' (Some [''21:30'', ''23:15'']))
             = Some [''21:30'', ''23:15'']"
    by (simp add: gig_def)
  have b: "[''21:30'', ''23:15''] \<noteq> ([] :: string list)" by simp
  have c: "last [''21:30'', ''23:15''] = ''23:15''" by simp
  have d: "parseDateOnly (dateString (gig ''late'' ''2025-06-01'' (Some [''21:30'', ''23:15''])))
             = Some (2025, 6, 1)"
    by code_simp
  have r0: "regularAt easternHost (MakeDate (MakeDay 2025 (6 - 1) 1) (MakeTime 23 15 0 0))"
    by code_simp
  have r1: "regularAt easternHost (MakeDate (MakeDay 2025 (6 - 1) 1) (MakeTime 23 (15 + 90) 0 0))"
    by code_simp
  have o: "getETOffset easternHost ''2025-06-01'' = ''-04:00''"
    by code_simp
  have s: "dateString (gig ''late'' ''2025-06-01'' (Some [''21:30'', ''23:15''])) = ''2025-06-01''"
    by (simp add: gig_def)
  show ?thesis
    using endDate_rollover [OF a b c d r0 r1] o s by simp
qed

text \<open>
  The scenario of the specification for the end instant: with the set times 20:00
  and 21:30 it is 23:00 on the date of the event, with the offset.
\<close>

lemma endDate_example:
  "endDate easternHost (gig ''today'' ''2025-06-01'' (Some [''20:00'', ''21:30'']))
     = Some ''2025-06-01T23:00:00-04:00''"
proof -
  have a: "setTimes (gig ''today'' ''2025-06-01'' (Some [''20:00'', ''21:30'']))
             = Some [''20:00'', ''21:30'']"
    by (simp add: gig_def)
  have b: "[''20:00'', ''21:30''] \<noteq> ([] :: string list)" by simp
  have c: "clockFields (last [''20:00'', ''21:30'']) = Some (21, 30)"
    by code_simp
  have d: "parseDateOnly (dateString (gig ''today'' ''2025-06-01'' (Some [''20:00'', ''21:30''])))
             = Some (2025, 6, 1)"
    by code_simp
  have r0: "regularAt easternHost (MakeDate (MakeDay 2025 (6 - 1) 1) (MakeTime 21 30 0 0))"
    by code_simp
  have r1: "regularAt easternHost (MakeDate (MakeDay 2025 (6 - 1) 1) (MakeTime 21 (30 + 90) 0 0))"
    by code_simp
  have o: "getETOffset easternHost ''2025-06-01'' = ''-04:00''"
    by code_simp
  have s: "dateString (gig ''today'' ''2025-06-01'' (Some [''20:00'', ''21:30''])) = ''2025-06-01''"
    by (simp add: gig_def)
  have p0: "padNat 2 (((21 * 60 + 30 + 90) div 60) mod 24) = ''23''"
    by code_simp
  have p1: "padNat 2 ((30 + 90) mod 60) = ''00''"
    by code_simp
  have "endDate easternHost (gig ''today'' ''2025-06-01'' (Some [''20:00'', ''21:30''])) =
          Some (dateString (gig ''today'' ''2025-06-01'' (Some [''20:00'', ''21:30'']))
                @ ''T'' @ padNat 2 (((21 * 60 + 30 + 90) div 60) mod 24)
                @ '':'' @ padNat 2 ((30 + 90) mod 60) @ '':00''
                @ getETOffset easternHost
                    (dateString (gig ''today'' ''2025-06-01'' (Some [''20:00'', ''21:30'']))))"
    using a b c _ _ d r0 r1 by (rule endDate_two_digits) simp_all
  then show ?thesis
    by (simp only: p0 p1 s o) simp
qed

text \<open>
  Claim C2: the end instant is the date, the last set time plus 90 minutes, and the
  offset. The code breaks this when the last set time is 20:00: the minutes come back
  from \<open>Number\<close> as 0, the string \<^verbatim>\<open>2025-06-01T20:0:00\<close> is outside the format, the
  date is invalid on a strict host, and the end instant reads NaN where the claim
  has 21:30.
\<close>

theorem endDate_round_hour:
  "endDate easternHost (gig ''round'' ''2025-06-01'' (Some [''20:00'']))
     = Some ''2025-06-01TNaN:NaN:00-04:00''
   \<and> specEndDate easternHost (gig ''round'' ''2025-06-01'' (Some [''20:00'']))
     = Some ''2025-06-01T21:30:00-04:00''"
  by code_simp

text \<open>
  Claim C4: start and end instants have the ISO 8601 shape with an offset and
  two-digit minutes. The start instant has it (lemma \<open>startDate_shape\<close>), and so
  has the end instant when hour and minute of the last set time are both at least
  ten (lemma \<open>endDate_shape\<close>). The code breaks the claim as soon as the hour or the
  minute of the last set time is below ten, on a host with a strict parser: the end
  instant then reads \<^verbatim>\<open>NaN:NaN\<close> and has not the shape.
\<close>

theorem endDate_not_iso:
  assumes "setTimes e = Some ts" and "ts \<noteq> []"
    and "clockFields (last ts) = Some (hh, mm)"
    and "hh < 10 \<or> mm < 10"
    and "parseDateOnly (dateString e) = Some (y, m, d)"
    and "parseOther h = strictParse"
  shows "endDate h e = Some (dateString e @ ''TNaN:NaN:00'' @ getETOffset h (dateString e))
         \<and> \<not> isOffsetInstant (dateString e @ ''TNaN:NaN:00'' @ getETOffset h (dateString e))"
proof -
  have l: "length (dateString e) = 10"
    using assms(5) by (rule parseDateOnly_length)
  have "endDate h e = Some (dateString e @ ''TNaN:NaN:00'' @ getETOffset h (dateString e))"
    using assms(1,2,3,4) l assms(6) by (rule endDate_short_field)
  moreover have "\<not> isOffsetInstant (dateString e @ ''TNaN:NaN:00'' @ getETOffset h (dateString e))"
    using l by (simp add: isOffsetInstant_def getETOffset_length)
  ultimately show ?thesis by simp
qed

theorem endDate_not_iso_witness:
  "endDate easternHost (gig ''round'' ''2025-06-01'' (Some [''20:00'']))
     = Some ''2025-06-01TNaN:NaN:00-04:00''
   \<and> \<not> isOffsetInstant ''2025-06-01TNaN:NaN:00-04:00''"
proof -
  have a: "setTimes (gig ''round'' ''2025-06-01'' (Some [''20:00''])) = Some [''20:00'']"
    by (simp add: gig_def)
  have b: "[''20:00''] \<noteq> ([] :: string list)" by simp
  have c: "clockFields (last [''20:00'']) = Some (20, 0)"
    by code_simp
  have s: "(20::int) < 10 \<or> (0::int) < 10" by simp
  have d: "parseDateOnly (dateString (gig ''round'' ''2025-06-01'' (Some [''20:00''])))
             = Some (2025, 6, 1)"
    by code_simp
  have p: "parseOther easternHost = strictParse"
    by (simp add: easternHost_def)
  have o: "getETOffset easternHost ''2025-06-01'' = ''-04:00''"
    by code_simp
  have t: "dateString (gig ''round'' ''2025-06-01'' (Some [''20:00''])) = ''2025-06-01''"
    by (simp add: gig_def)
  show ?thesis
    using endDate_not_iso [OF a b c s d p] o t by simp
qed

end
